theory Spec2Isabelle
  imports Complex_Main "HOL-Library.Stream"
begin

section \<open>WebSnake: a shallow embedding of docs/game.js\<close>

text \<open>
  The script keeps the whole game in module-level variables and mutates them from three
  callbacks (the start button, the key handler, the interval timer). Here the variables
  are the fields of one record; every callback takes the record and returns the updated
  one. Beside the script's own variables the record holds the part of the browser the
  script talks to: the remaining outputs of \<open>Math.random\<close>, the set of active interval
  timers, the scoreboard contents, the alerts shown, the \<open>hidden\<close> class of the two
  screens and the number of tones started. The canvas painting (\<open>draw\<close>) only reads the
  game variables and is left out.
\<close>

subsection \<open>Configuration constants\<close>

type_synonym cell = "int \<times> int"

definition BOARD_WIDTH :: int where
  "BOARD_WIDTH = 40"

definition BOARD_HEIGHT :: int where
  "BOARD_HEIGHT = 30"

subsection \<open>JavaScript primitives\<close>

text \<open>
  The remainder operator \<open>%\<close> of JavaScript truncates towards zero: the result has the
  sign of the dividend. The divisor is one of the two board constants, never zero.
\<close>

definition js_rem :: "int \<Rightarrow> int \<Rightarrow> int" where
  "js_rem a b = sgn a * (\<bar>a\<bar> mod \<bar>b\<bar>)"

definition Math_floor :: "real \<Rightarrow> int" where
  "Math_floor r = \<lfloor>r\<rfloor>"

text \<open>
  The Number values that the sampling of a cell meets are non-negative and finite: a
  double is \<open>m * 2 ^ e\<close> with a mantissa \<open>m\<close> below \<open>2 ^ 53\<close> and an exponent \<open>e\<close> from
  -1074 to 971. \<open>val\<close> is the real number that a double stands for.
\<close>

datatype double = Double (mantissa: nat) (exponent: int)

definition val :: "double \<Rightarrow> real" where
  "val d = real (mantissa d) * power_int 2 (exponent d)"

definition is_double :: "double \<Rightarrow> bool" where
  "is_double d = (mantissa d < 2 ^ 53 \<and> - 1074 \<le> exponent d \<and> exponent d \<le> 971)"

text \<open>An integer constant of the script as a Number (exact below \<open>2 ^ 53\<close>).\<close>

definition Number_of_int :: "int \<Rightarrow> double" where
  "Number_of_int n = Double (nat n) 0"

text \<open>The number of binary digits of a natural number.\<close>

fun bit_length :: "nat \<Rightarrow> nat" where
  "bit_length n = (if n = 0 then 0 else Suc (bit_length (n div 2)))"

declare bit_length.simps [simp del]

text \<open>
  \<open>m / 2 ^ s\<close> rounded to the nearest natural number, a tie going to the even
  neighbour.
\<close>

definition round_shift :: "nat \<Rightarrow> nat \<Rightarrow> nat" where
  "round_shift m s =
     (let q = m div 2 ^ s; r = m mod 2 ^ s
      in if 2 * r < 2 ^ s then q
         else if 2 * r > 2 ^ s then q + 1
         else if even q then q else q + 1)"

text \<open>
  The operator \<open>*\<close> on two such Numbers: the exact product of the mantissas is cut
  to 53 binary digits (and to no digit below \<open>2 ^ -1074\<close>) by rounding to nearest, ties
  to even, as IEEE 754 prescribes. A product of \<open>2 ^ 1024\<close> or more would be
  \<open>Infinity\<close>; the products taken by the script are below 64.
\<close>

definition js_times :: "double \<Rightarrow> double \<Rightarrow> double" where
  "js_times a b =
     (let m = mantissa a * mantissa b;
          e = exponent a + exponent b;
          s = nat (max (int (bit_length m) - 53) (- 1074 - e))
      in Double (round_shift m s) (e + int s))"

text \<open>
  \<open>String.prototype.toLowerCase\<close> on the ASCII letters. No character outside ASCII
  lowers to a letter of the eight key names below, so the other code points are left
  as they are.
\<close>

definition lower_char :: "char \<Rightarrow> char" where
  "lower_char c =
     (if (65::nat) \<le> of_char c \<and> of_char c \<le> (90::nat)
      then char_of (of_char c + (32::nat)) else c)"

definition toLowerCase :: "string \<Rightarrow> string" where
  "toLowerCase k = map lower_char k"

text \<open>
  The player's name is a JavaScript string: a list of UTF-16 code units.
  \<open>String.prototype.trim\<close> strips the white space and the line terminators of
  ECMAScript from both ends: U+0009 to U+000D, U+0020, U+00A0, U+1680, U+2000 to U+200A,
  U+2028, U+2029, U+202F, U+205F, U+3000 and U+FEFF, each a single code unit.
\<close>

type_synonym js_string = "nat list"

definition is_space :: "nat \<Rightarrow> bool" where
  "is_space c =
     (c \<in> {9, 10, 11, 12, 13, 32, 160, 5760, 8232, 8233, 8239, 8287, 12288, 65279}
      \<or> (8192 \<le> c \<and> c \<le> 8202))"

definition trim :: "js_string \<Rightarrow> js_string" where
  "trim v = rev (dropWhile is_space (rev (dropWhile is_space v)))"

text \<open>The string literal \<open>'Spieler'\<close>.\<close>

definition Spieler :: js_string where
  "Spieler = map of_char ''Spieler''"

datatype js_error = TypeError | DOMException

subsection \<open>The game variables and the browser around them\<close>

record state =
  playerName :: js_string
  snake :: "cell list"
  direction :: cell
  pendingDirection :: "cell option"
  food :: "cell option"
  running :: bool
  score :: int
  intervalId :: "nat option"
  audioCtx :: bool
  rnd :: "double stream"
  timers :: "nat set"
  next_timer :: nat
  scoreboard :: "(js_string \<times> int) option"
  alerts :: "(js_string \<times> int) list"
  startScreen_hidden :: bool
  gameContainer_hidden :: bool
  tones :: nat

text \<open>
  The variables as the script initialises them when it is loaded; the future outputs of
  \<open>Math.random\<close> are a parameter.
\<close>

definition initial_state :: "double stream \<Rightarrow> state" where
  "initial_state rs =
     \<lparr> playerName = [], snake = [], direction = (1, 0), pendingDirection = None,
       food = None, running = False, score = 0, intervalId = None, audioCtx = False,
       rnd = rs, timers = {}, next_timer = 1, scoreboard = None, alerts = [],
       startScreen_hidden = False, gameContainer_hidden = True, tones = 0 \<rparr>"

text \<open>
  \<open>Math.random()\<close> hands out the next number of the stream. Its contract: every number
  is a double, at least 0 (as every value of the type here) and less than 1.
\<close>

definition Math_random :: "state \<Rightarrow> double \<times> state" where
  "Math_random s = (shd (rnd s), s\<lparr>rnd := stl (rnd s)\<rparr>)"

definition Math_random_contract :: "double stream \<Rightarrow> bool" where
  "Math_random_contract rs = (\<forall>r \<in> sset rs. is_double r \<and> val r < 1)"

definition setInterval :: "state \<Rightarrow> nat \<times> state" where
  "setInterval s =
     (next_timer s,
      s\<lparr>timers := insert (next_timer s) (timers s), next_timer := Suc (next_timer s)\<rparr>)"

definition clearInterval :: "nat option \<Rightarrow> state \<Rightarrow> state" where
  "clearInterval i s = (case i of None \<Rightarrow> s | Some n \<Rightarrow> s\<lparr>timers := timers s - {n}\<rparr>)"

subsection \<open>randomEmptyPosition\<close>

text \<open>The inner \<open>for (const seg of snake)\<close> loop, with its \<open>break\<close>.\<close>

fun occupied_at :: "cell list \<Rightarrow> int \<Rightarrow> int \<Rightarrow> bool" where
  "occupied_at [] x y = False"
| "occupied_at (seg # segs) x y =
     (if fst seg = x \<and> snd seg = y then True else occupied_at segs x y)"

text \<open>
  The two draws at the top of the loop body; each product is the rounded product of two
  doubles.
\<close>

definition sample_position :: "state \<Rightarrow> cell \<times> state" where
  "sample_position s =
     (let (r1, s1) = Math_random s;
          x = Math_floor (val (js_times r1 (Number_of_int BOARD_WIDTH)));
          (r2, s2) = Math_random s1;
          y = Math_floor (val (js_times r2 (Number_of_int BOARD_HEIGHT)))
      in ((x, y), s2))"

text \<open>
  The \<open>while (true)\<close> loop has no bound: a run that never finds a free cell is the
  value \<open>None\<close>.
\<close>

partial_function (option) randomEmptyPosition :: "state \<Rightarrow> (cell \<times> state) option" where
  "randomEmptyPosition s =
     (if occupied_at (snake (snd (sample_position s)))
           (fst (fst (sample_position s))) (snd (fst (sample_position s)))
      then randomEmptyPosition (snd (sample_position s))
      else Some (sample_position s))"

subsection \<open>updateScoreboard, endGame, playBeep\<close>

definition updateScoreboard :: "state \<Rightarrow> state" where
  "updateScoreboard s = s\<lparr>scoreboard := Some (playerName s, score s)\<rparr>"

definition endGame :: "state \<Rightarrow> state" where
  "endGame s =
     (let s1 = s\<lparr>running := False\<rparr>;
          s2 = clearInterval (intervalId s1) s1;
          s3 = s2\<lparr>alerts := alerts s2 @ [(playerName s2, score s2)]\<rparr>
      in s3\<lparr>gameContainer_hidden := True, startScreen_hidden := False\<rparr>)"

text \<open>
  What the browser's audio does during one call of \<open>playBeep\<close>: whether constructing
  the audio context throws (a missing constructor is a \<open>TypeError\<close>), and whether one of
  the calls that build and start the oscillator throws.
\<close>

record audio_env =
  ctor_throws :: "js_error option"
  synth_throws :: "js_error option"

text \<open>
  The body of the \<open>try\<close> block: the state it leaves behind and the exception that
  ended it, if any.
\<close>

definition playBeep_try :: "audio_env \<Rightarrow> state \<Rightarrow> js_error option \<times> state" where
  "playBeep_try a s =
     (if \<not> audioCtx s \<and> ctor_throws a \<noteq> None then (ctor_throws a, s)
      else
        (let s1 = (if \<not> audioCtx s then s\<lparr>audioCtx := True\<rparr> else s)
         in if synth_throws a \<noteq> None then (synth_throws a, s1)
            else (None, s1\<lparr>tones := Suc (tones s1)\<rparr>)))"

text \<open>The \<open>catch\<close> block is empty: the exception is dropped.\<close>

definition playBeep :: "audio_env \<Rightarrow> state \<Rightarrow> state" where
  "playBeep a s = snd (playBeep_try a s)"

subsection \<open>startGame and the start button\<close>

text \<open>
  The first argument is \<open>nameInput.value\<close>. The result is \<open>None\<close> when the food
  placement never returns. The halves of the two board constants are exact, so the
  quotients are taken in the reals. The closing \<open>requestAnimationFrame(draw)\<close> only
  starts the painting.
\<close>

definition startGame :: "js_string \<Rightarrow> state \<Rightarrow> state option" where
  "startGame nameInput_value s =
     (let s1 = s\<lparr>playerName :=
                   (if trim nameInput_value = [] then Spieler else trim nameInput_value)\<rparr>;
          startX = Math_floor (real_of_int BOARD_WIDTH / 2);
          startY = Math_floor (real_of_int BOARD_HEIGHT / 2);
          s2 = s1\<lparr>snake := [(startX, startY), (startX - 1, startY), (startX - 2, startY)]\<rparr>;
          s3 = s2\<lparr>direction := (1, 0)\<rparr>;
          s4 = s3\<lparr>pendingDirection := None\<rparr>
      in case randomEmptyPosition s4 of
           None \<Rightarrow> None
         | Some (pos, s5) \<Rightarrow>
             (let s6 = s5\<lparr>food := Some pos\<rparr>;
                  s7 = s6\<lparr>score := int (length (snake s6))\<rparr>;
                  s8 = updateScoreboard s7;
                  s9 = s8\<lparr>running := True\<rparr>;
                  (i, s10) = setInterval s9
              in Some (s10\<lparr>intervalId := Some i\<rparr>)))"

definition startBtn_click :: "js_string \<Rightarrow> state \<Rightarrow> state option" where
  "startBtn_click nameInput_value s =
     startGame nameInput_value (s\<lparr>startScreen_hidden := True, gameContainer_hidden := False\<rparr>)"

subsection \<open>handleKeyDown\<close>

text \<open>
  The object literal \<open>map\<close> as an association list. The argument is \<open>e.key\<close>, the
  key value of a keyboard event; no key value lowers to the name of a property that the
  literal inherits, so a look-up outside the eight names is \<open>undefined\<close>.
\<close>

definition key_map :: "(string \<times> cell) list" where
  "key_map =
     [(''arrowup'', (0, -1)), (''w'', (0, -1)),
      (''arrowdown'', (0, 1)), (''s'', (0, 1)),
      (''arrowleft'', (-1, 0)), (''a'', (-1, 0)),
      (''arrowright'', (1, 0)), (''d'', (1, 0))]"

definition handleKeyDown :: "string \<Rightarrow> state \<Rightarrow> state" where
  "handleKeyDown e_key s =
     (let key = toLowerCase e_key
      in case map_of key_map key of
           None \<Rightarrow> s
         | Some newDir \<Rightarrow>
             if fst newDir \<noteq> - fst (direction s) \<or> snd newDir \<noteq> - snd (direction s)
             then s\<lparr>pendingDirection := Some newDir\<rparr>
             else s)"

subsection \<open>tick\<close>

text \<open>Taking over the pending direction, the first statement after the guard.\<close>

definition apply_pending :: "state \<Rightarrow> state" where
  "apply_pending s =
     (case pendingDirection s of
        None \<Rightarrow> s
      | Some d \<Rightarrow> s\<lparr>direction := d, pendingDirection := None\<rparr>)"

text \<open>The new head position, with the wrap-around at the four borders.\<close>

definition newHead :: "cell \<Rightarrow> cell \<Rightarrow> cell" where
  "newHead head d =
     (js_rem (fst head + fst d + BOARD_WIDTH) BOARD_WIDTH,
      js_rem (snd head + snd d + BOARD_HEIGHT) BOARD_HEIGHT)"

text \<open>The self-collision loop \<open>for (let i = 0; i < snake.length; i++)\<close>.\<close>

fun hits_body :: "cell list \<Rightarrow> int \<Rightarrow> int \<Rightarrow> bool" where
  "hits_body [] newX newY = False"
| "hits_body (seg # segs) newX newY =
     (if fst seg = newX \<and> snd seg = newY then True else hits_body segs newX newY)"

text \<open>
  One call of \<open>tick\<close>. The outer \<open>option\<close> is \<open>None\<close> when the call never returns
  (the food placement runs for ever); \<open>Inl\<close> is an exception leaving the call: on an
  empty snake \<open>snake[0]\<close> is \<open>undefined\<close> and reading its component throws.
\<close>

definition tick :: "audio_env \<Rightarrow> state \<Rightarrow> (js_error + state) option" where
  "tick a s =
     (if \<not> running s then Some (Inr s)
      else
        (let s1 = apply_pending s
         in case snake s1 of
              [] \<Rightarrow> Some (Inl TypeError)
            | head # _ \<Rightarrow>
                (let newX = fst (newHead head (direction s1));
                     newY = snd (newHead head (direction s1))
                 in if hits_body (snake s1) newX newY then Some (Inr (endGame s1))
                    else
                      (let s2 = s1\<lparr>snake := (newX, newY) # snake s1\<rparr>
                       in if food s2 \<noteq> None \<and> newX = fst (the (food s2))
                             \<and> newY = snd (the (food s2))
                          then
                            (let s3 = s2\<lparr>score := score s2 + 1\<rparr>;
                                 s4 = playBeep a s3
                             in case randomEmptyPosition s4 of
                                  None \<Rightarrow> None
                                | Some (pos, s5) \<Rightarrow>
                                    Some (Inr (updateScoreboard (s5\<lparr>food := Some pos\<rparr>))))
                          else
                            Some (Inr (updateScoreboard (s2\<lparr>snake := butlast (snake s2)\<rparr>)))))))"

subsection \<open>Reachable states\<close>

text \<open>
  The states the page can be in: the loaded script, then any sequence of clicks on the
  start button, key presses and timer ticks that return.
\<close>

inductive reachable :: "state \<Rightarrow> bool" where
  loaded: "reachable (initial_state rs)"
| click: "reachable s \<Longrightarrow> startBtn_click v s = Some s' \<Longrightarrow> reachable s'"
| key: "reachable s \<Longrightarrow> reachable (handleKeyDown k s)"
| timer: "reachable s \<Longrightarrow> tick a s = Some (Inr s') \<Longrightarrow> reachable s'"

subsection \<open>Notions used in the statements\<close>

text \<open>
  The state at the start of round \<open>k\<close> of the loop in \<open>randomEmptyPosition\<close> (every
  round consumes two random numbers), and the cell that round proposes.
\<close>

definition round_state :: "nat \<Rightarrow> state \<Rightarrow> state" where
  "round_state k s = s\<lparr>rnd := sdrop (2 * k) (rnd s)\<rparr>"

definition proposal :: "nat \<Rightarrow> state \<Rightarrow> cell" where
  "proposal k s = fst (sample_position (round_state k s))"

text \<open>A browser whose audio works, and one without any audio context constructor.\<close>

definition audio_ok :: audio_env where
  "audio_ok = \<lparr> ctor_throws = None, synth_throws = None \<rparr>"



subsection \<open>Concrete states\<close>

text \<open>
  The double nearest to 0.7, \<open>0x1.6666666666666p-1\<close>. Its exact products with 40 and
  with 30 lie just below 28 and 21 and round to 28 and 21.
\<close>

definition dbl_0_7 :: double where
  "dbl_0_7 = Double 6305039478318694 (- 53)"

text \<open>
  A game in progress after one click on the start button, with no name entered: the
  given snake, direction, food and future of \<open>Math.random\<close>; the score is the length
  of the snake.
\<close>

definition game_state :: "cell list \<Rightarrow> cell \<Rightarrow> cell option \<Rightarrow> double stream \<Rightarrow> state" where
  "game_state sn d f rs =
     \<lparr> playerName = Spieler, snake = sn, direction = d, pendingDirection = None,
       food = f, running = True, score = int (length sn), intervalId = Some 1,
       audioCtx = False, rnd = rs, timers = {1}, next_timer = 2,
       scoreboard = Some (Spieler, int (length sn)), alerts = [],
       startScreen_hidden = True, gameContainer_hidden = False, tones = 0 \<rparr>"

text \<open>
  A board that is full but for the cell \<open>(0, 0)\<close>: the snake's head is at \<open>(1, 0)\<close>, its
  body runs along row 0 to the right border and then through the rows 1 to 29 in
  alternating directions; the food lies on \<open>(0, 0)\<close> and the snake moves left.
\<close>

definition board_row :: "int \<Rightarrow> cell list" where
  "board_row y =
     (if even y then map (\<lambda>x. (x, y)) [0..39] else map (\<lambda>x. (x, y)) (rev [0..39]))"

definition nearly_full_snake :: "cell list" where
  "nearly_full_snake = map (\<lambda>x. (x, 0)) [1..39] @ concat (map board_row [1..29])"

definition nearly_full_board :: state where
  "nearly_full_board = game_state nearly_full_snake (-1, 0) (Some (0, 0)) (sconst (Double 0 0))"

section \<open>Rounded products\<close>

lemma bit_length_le: "n < 2 ^ b \<Longrightarrow> bit_length n \<le> b"
proof (induction n arbitrary: b rule: bit_length.induct)
  case (1 n)
  show ?case
  proof (cases "n = 0")
    case True
    then show ?thesis by (simp add: bit_length.simps)
  next
    case False
    with 1(2) obtain b' where b: "b = Suc b'"
      by (cases b) auto
    with 1(2) have "n div 2 < 2 ^ b'" by auto
    from 1(1)[OF False this] show ?thesis
      using False b by (subst bit_length.simps) simp
  qed
qed

lemma bit_length_le_iff: "bit_length n \<le> b \<longleftrightarrow> n < 2 ^ b"
proof
  show "n < 2 ^ b \<Longrightarrow> bit_length n \<le> b"
    by (rule bit_length_le)
  show "bit_length n \<le> b \<Longrightarrow> n < 2 ^ b"
  proof (induction n arbitrary: b rule: bit_length.induct)
    case (1 n)
    show ?case
    proof (cases "n = 0")
      case True
      then show ?thesis by simp
    next
      case False
      with 1(2) have "Suc (bit_length (n div 2)) \<le> b"
        by (subst (asm) bit_length.simps) simp
      then obtain b' where b: "b = Suc b'" and le: "bit_length (n div 2) \<le> b'"
        by (cases b) auto
      from 1(1)[OF False le] have "n div 2 < 2 ^ b'" .
      then show ?thesis
        using b by auto
    qed
  qed
qed

lemma bit_length_eqI:
  assumes "2 ^ b \<le> n" "n < 2 ^ Suc b"
  shows "bit_length n = Suc b"
proof -
  from assms(2) have "bit_length n \<le> Suc b"
    by (simp only: bit_length_le_iff)
  moreover from assms(1) have "\<not> bit_length n \<le> b"
    by (simp only: bit_length_le_iff not_less)
  ultimately show ?thesis by simp
qed

lemma round_shift_upper: "2 * (round_shift m s * 2 ^ s) \<le> 2 * m + 2 ^ s"
proof -
  define q where "q = m div 2 ^ s"
  define r where "r = m mod 2 ^ s"
  have m: "m = q * 2 ^ s + r"
    unfolding q_def r_def by (rule div_mult_mod_eq [symmetric])
  have "round_shift m s = q \<or> (round_shift m s = q + 1 \<and> 2 ^ s \<le> 2 * r)"
    by (auto simp: round_shift_def Let_def q_def r_def)
  then show ?thesis
    using m by (auto simp: algebra_simps)
qed

lemma round_shift_0: "round_shift m 0 = m"
  by (simp add: round_shift_def)

lemma js_times_exact:
  assumes "mantissa a * mantissa b < 2 ^ 53" "- 1074 \<le> exponent a + exponent b"
  shows "js_times a b = Double (mantissa a * mantissa b) (exponent a + exponent b)"
proof -
  from assms(1) have "bit_length (mantissa a * mantissa b) \<le> 53"
    by (simp only: bit_length_le_iff)
  with assms(2) have "max (int (bit_length (mantissa a * mantissa b)) - 53)
      (- 1074 - (exponent a + exponent b)) \<le> 0"
    by linarith
  then have z: "nat (max (int (bit_length (mantissa a * mantissa b)) - 53)
      (- 1074 - (exponent a + exponent b))) = 0"
    by simp
  show ?thesis
    by (simp only: js_times_def Let_def z round_shift_0 of_nat_0 add_0_right)
qed

lemma js_times_small:
  assumes "m * nat n < 2 ^ 53" "- 1074 \<le> e"
  shows "js_times (Double m e) (Number_of_int n) = Double (m * nat n) e"
  using js_times_exact [of "Double m e" "Number_of_int n"] assms
  by (simp add: Number_of_int_def)

lemma val_nonneg: "0 \<le> val d"
  by (simp add: val_def)

lemma val_shifted:
  "val (Double q (- int a + int s)) = real (q * 2 ^ s) / 2 ^ a"
proof -
  have "power_int (2::real) (- int a + int s) = power_int 2 (- int a) * power_int 2 (int s)"
    by (rule power_int_add) simp
  also have "\<dots> = 2 ^ s / 2 ^ a"
    by (simp add: power_int_minus field_simps)
  finally show ?thesis
    by (simp add: val_def)
qed

lemma below_one:
  assumes "val d < 1" "mantissa d \<noteq> 0"
  shows "exponent d < 0 \<and> mantissa d < 2 ^ nat (- exponent d)"
proof -
  have neg: "exponent d < 0"
  proof (rule ccontr)
    assume "\<not> exponent d < 0"
    then have "(1::real) \<le> power_int 2 (exponent d)"
      by (simp add: power_int_def)
    moreover have "1 \<le> real (mantissa d)"
      using assms(2) by simp
    ultimately have "1 * 1 \<le> real (mantissa d) * power_int 2 (exponent d)"
      by (intro mult_mono) simp_all
    with assms(1) show False
      by (simp add: val_def)
  qed
  then have "power_int (2::real) (exponent d) = 1 / 2 ^ nat (- exponent d)"
    by (simp add: power_int_def field_simps)
  with assms(1) have "real (mantissa d) < 2 ^ nat (- exponent d)"
    by (simp add: val_def field_simps)
  then have "mantissa d < 2 ^ nat (- exponent d)"
    by (metis of_nat_less_iff of_nat_numeral of_nat_power)
  with neg show ?thesis by simp
qed

lemma scaled_below:
  assumes d: "is_double d" "val d < 1"
    and n: "n \<le> 2 ^ k" "2 ^ k < 2 * n"
  shows "val (js_times d (Number_of_int (int n))) < real n"
proof (cases "mantissa d = 0")
  case True
  from d(1) have "- 1074 \<le> exponent d"
    by (simp add: is_double_def)
  with True have "js_times d (Number_of_int (int n)) = Double 0 (exponent d)"
    by (subst js_times_exact) (simp_all add: Number_of_int_def)
  moreover from n have "0 < n" by (cases n) auto
  ultimately show ?thesis
    by (simp add: val_def)
next
  case False
  define m where "m = mantissa d"
  define a where "a = nat (- exponent d)"
  define s where "s = nat (int (bit_length (m * n)) - 53)"
  from below_one[OF d(2) False] have x: "exponent d = - int a" and ma: "m < 2 ^ a"
    by (simp_all add: a_def m_def)
  from d(1) have m53: "m < 2 ^ 53" and lo: "- 1074 \<le> exponent d"
    by (simp_all add: is_double_def m_def)
  have "m * n < 2 ^ 53 * 2 ^ k"
    using m53 n(1) n(2) by (intro mult_less_le_imp_less) auto
  then have "bit_length (m * n) \<le> 53 + k"
    by (simp only: bit_length_le_iff power_add)
  then have sk: "s \<le> k"
    by (simp add: s_def)
  have shift: "nat (max (int (bit_length (m * n)) - 53) (- 1074 - exponent d)) = s"
    unfolding s_def using lo by arith
  have res: "js_times d (Number_of_int (int n)) = Double (round_shift (m * n) s) (- int a + int s)"
  proof -
    have "js_times d (Number_of_int (int n)) =
        Double (round_shift (m * n) (nat (max (int (bit_length (m * n)) - 53) (- 1074 - exponent d))))
          (exponent d + int (nat (max (int (bit_length (m * n)) - 53) (- 1074 - exponent d))))"
      by (simp add: js_times_def Let_def Number_of_int_def m_def)
    then show ?thesis
      by (simp only: x shift[unfolded x])
  qed
  have "2 * (round_shift (m * n) s * 2 ^ s) \<le> 2 * (m * n) + 2 ^ s"
    by (rule round_shift_upper)
  also have "\<dots> \<le> 2 * (m * n) + 2 ^ k"
    using sk by simp
  also have "\<dots> < 2 * (m * n) + 2 * n"
    using n(2) by simp
  also have "\<dots> = 2 * (Suc m * n)"
    by simp
  also have "\<dots> \<le> 2 * (2 ^ a * n)"
    using ma by (intro mult_le_mono) simp_all
  finally have "round_shift (m * n) s * 2 ^ s < 2 ^ a * n"
    by simp
  then have "real (round_shift (m * n) s * 2 ^ s) < real (2 ^ a * n)"
    by (simp only: of_nat_less_iff)
  then have "real (round_shift (m * n) s * 2 ^ s) / 2 ^ a < real n"
    by (simp add: field_simps)
  then show ?thesis
    by (simp only: res val_shifted)
qed

text \<open>
  The rounded product of a double below 1 with \<open>n\<close> stays below \<open>n\<close> when \<open>n\<close> is not
  a power of two or is one: with \<open>n \<le> 2 ^ k < 2 * n\<close> the product of the mantissas has at
  most \<open>53 + k\<close> digits, so rounding adds less than \<open>n\<close> units of the last digit of
  the factor.
\<close>

lemma floor_scaled_range:
  assumes "is_double d" "val d < 1" "n \<le> 2 ^ k" "2 ^ k < 2 * n"
  shows "0 \<le> \<lfloor>val (js_times d (Number_of_int (int n)))\<rfloor>
       \<and> \<lfloor>val (js_times d (Number_of_int (int n)))\<rfloor> < int n"
proof -
  have lo: "0 \<le> \<lfloor>val (js_times d (Number_of_int (int n)))\<rfloor>"
    using val_nonneg by (simp only: zero_le_floor)
  from scaled_below[OF assms]
  have "val (js_times d (Number_of_int (int n))) < real_of_int (int n)"
    by simp
  then have hi: "\<lfloor>val (js_times d (Number_of_int (int n)))\<rfloor> < int n"
    by (simp only: floor_less_iff)
  from lo hi show ?thesis by (rule conjI)
qed

section \<open>The scans of the snake and the random samples\<close>

lemma occupied_at_iff: "occupied_at segs x y \<longleftrightarrow> (x, y) \<in> set segs"
  by (induction segs) auto

lemma hits_body_iff: "hits_body segs x y \<longleftrightarrow> (x, y) \<in> set segs"
  by (induction segs) auto

lemma js_rem_nonneg: "0 \<le> a \<Longrightarrow> 0 < b \<Longrightarrow> js_rem a b = a mod b"
  by (cases "a = 0") (simp_all add: js_rem_def)

lemma sample_position_state:
  "snd (sample_position s) = s\<lparr>rnd := stl (stl (rnd s))\<rparr>"
  by (simp add: sample_position_def Math_random_def Let_def)

lemma sample_position_cell:
  "fst (sample_position s) =
     (Math_floor (val (js_times (shd (rnd s)) (Number_of_int BOARD_WIDTH))),
      Math_floor (val (js_times (shd (stl (rnd s))) (Number_of_int BOARD_HEIGHT))))"
  by (simp add: sample_position_def Math_random_def Let_def)

lemma snake_sample_position: "snake (snd (sample_position s)) = snake s"
  by (simp add: sample_position_state)

lemma sample_position_in_range:
  assumes "Math_random_contract (rnd s)"
  shows "0 \<le> fst (fst (sample_position s)) \<and> fst (fst (sample_position s)) < BOARD_WIDTH
       \<and> 0 \<le> snd (fst (sample_position s)) \<and> snd (fst (sample_position s)) < BOARD_HEIGHT"
proof -
  have a: "is_double (shd (rnd s))" "val (shd (rnd s)) < 1"
    using assms shd_sset[of "rnd s"] by (simp_all add: Math_random_contract_def)
  have "shd (stl (rnd s)) \<in> sset (rnd s)"
    using shd_sset[of "stl (rnd s)"] stl_sset by fast
  then have b: "is_double (shd (stl (rnd s)))" "val (shd (stl (rnd s))) < 1"
    using assms by (simp_all add: Math_random_contract_def)
  have w: "(40::nat) \<le> 2 ^ 6" "(2::nat) ^ 6 < 2 * 40"
    and h: "(30::nat) \<le> 2 ^ 5" "(2::nat) ^ 5 < 2 * 30"
    by simp_all
  show ?thesis
    using floor_scaled_range[OF a w] floor_scaled_range[OF b h]
    by (simp add: sample_position_cell Math_floor_def BOARD_WIDTH_def BOARD_HEIGHT_def)
qed

subsection \<open>The rounds of the food placement\<close>

lemma round_state_0: "round_state 0 s = s"
  by (simp add: round_state_def)

lemma stl_stl_sdrop: "stl (stl rs) = sdrop 2 rs"
  by (simp add: numeral_2_eq_2)

lemma round_state_Suc: "round_state k (snd (sample_position s)) = round_state (Suc k) s"
proof -
  have "sdrop (2 * k) (stl (stl (rnd s))) = sdrop (2 * Suc k) (rnd s)"
    by (simp only: stl_stl_sdrop sdrop_add mult_Suc_right)
  then show ?thesis
    by (simp add: round_state_def sample_position_state)
qed

lemma sample_round_state:
  "snd (sample_position (round_state j s)) = s\<lparr>rnd := sdrop (2 * Suc j) (rnd s)\<rparr>"
proof -
  have "stl (stl (sdrop (2 * j) (rnd s))) = sdrop (2 * Suc j) (rnd s)"
    by (simp only: stl_stl_sdrop sdrop_add mult_Suc_right add.commute)
  then show ?thesis
    by (simp add: sample_position_state round_state_def)
qed

lemma contract_round_state:
  "Math_random_contract (rnd s) \<Longrightarrow> Math_random_contract (rnd (round_state k s))"
  by (auto simp: Math_random_contract_def round_state_def sset_range sdrop_snth)

lemma proposal_0: "proposal 0 s = fst (sample_position s)"
  by (simp add: proposal_def round_state_0)

lemma proposal_Suc: "proposal k (snd (sample_position s)) = proposal (Suc k) s"
  by (simp add: proposal_def round_state_Suc)

lemma proposal_cell:
  "proposal k s =
     (Math_floor (val (js_times (shd (sdrop (2 * k) (rnd s))) (Number_of_int BOARD_WIDTH))),
      Math_floor (val (js_times (shd (stl (sdrop (2 * k) (rnd s)))) (Number_of_int BOARD_HEIGHT))))"
  by (simp add: proposal_def sample_position_cell round_state_def)

lemma proposal_cong: "rnd s = rnd t \<Longrightarrow> proposal k s = proposal k t"
  by (simp add: proposal_cell)

lemma proposal_audio [simp]: "proposal k (s\<lparr>audioCtx := b, tones := n\<rparr>) = proposal k s"
  by (simp add: proposal_cell)

lemma proposal_in_range:
  assumes "Math_random_contract (rnd s)"
  shows "0 \<le> fst (proposal k s) \<and> fst (proposal k s) < BOARD_WIDTH
       \<and> 0 \<le> snd (proposal k s) \<and> snd (proposal k s) < BOARD_HEIGHT"
  unfolding proposal_def
  by (rule sample_position_in_range) (rule contract_round_state[OF assms])

subsection \<open>Which round returns\<close>

lemma first_round_occupied:
  assumes "fst (sample_position s) \<in> set (snake s)"
  shows "randomEmptyPosition s = randomEmptyPosition (snd (sample_position s))"
  using assms
  by (subst randomEmptyPosition.simps) (simp add: occupied_at_iff snake_sample_position)

lemma first_round_free:
  assumes "fst (sample_position s) \<notin> set (snake s)"
  shows "randomEmptyPosition s = Some (sample_position s)"
  using assms
  by (subst randomEmptyPosition.simps) (simp add: occupied_at_iff snake_sample_position)

lemma randomEmptyPosition_result:
  assumes "randomEmptyPosition s = Some y"
  shows "\<exists>k. y = sample_position (round_state k s) \<and> fst y \<notin> set (snake s)"
proof (rule randomEmptyPosition.raw_induct
    [where P = "\<lambda>s y. \<exists>k. y = sample_position (round_state k s) \<and> fst y \<notin> set (snake s)",
      OF _ assms])
  fix f :: "state \<Rightarrow> (cell \<times> state) option" and s y
  assume IH: "\<And>s y. f s = Some y \<Longrightarrow>
      \<exists>k. y = sample_position (round_state k s) \<and> fst y \<notin> set (snake s)"
  assume body: "(if occupied_at (snake (snd (sample_position s)))
           (fst (fst (sample_position s))) (snd (fst (sample_position s)))
      then f (snd (sample_position s))
      else Some (sample_position s)) = Some y"
  show "\<exists>k. y = sample_position (round_state k s) \<and> fst y \<notin> set (snake s)"
  proof (cases "fst (sample_position s) \<in> set (snake s)")
    case True
    with body have fy: "f (snd (sample_position s)) = Some y"
      by (simp add: occupied_at_iff snake_sample_position)
    from IH[OF fy] obtain k where
      "y = sample_position (round_state k (snd (sample_position s)))"
      "fst y \<notin> set (snake (snd (sample_position s)))" by blast
    then have "y = sample_position (round_state (Suc k) s) \<and> fst y \<notin> set (snake s)"
      by (simp add: round_state_Suc snake_sample_position)
    then show ?thesis by blast
  next
    case False
    with body have "y = sample_position s"
      by (simp add: occupied_at_iff snake_sample_position)
    with False have "y = sample_position (round_state 0 s) \<and> fst y \<notin> set (snake s)"
      by (simp add: round_state_0)
    then show ?thesis by blast
  qed
qed

lemma randomEmptyPosition_first_free:
  "proposal k s \<notin> set (snake s) \<Longrightarrow> (\<forall>j<k. proposal j s \<in> set (snake s)) \<Longrightarrow>
     randomEmptyPosition s = Some (sample_position (round_state k s))"
proof (induction k arbitrary: s)
  case 0
  then have "\<not> occupied_at (snake (snd (sample_position s)))
      (fst (fst (sample_position s))) (snd (fst (sample_position s)))"
    by (simp add: occupied_at_iff snake_sample_position proposal_0)
  then have "randomEmptyPosition s = Some (sample_position s)"
    by (subst randomEmptyPosition.simps) simp
  then show ?case by (simp add: round_state_0)
next
  case (Suc k)
  from Suc.prems(2) have "proposal 0 s \<in> set (snake s)" by blast
  then have occ: "occupied_at (snake (snd (sample_position s)))
      (fst (fst (sample_position s))) (snd (fst (sample_position s)))"
    by (simp add: occupied_at_iff snake_sample_position proposal_0)
  have eq: "randomEmptyPosition s = randomEmptyPosition (snd (sample_position s))"
    by (subst randomEmptyPosition.simps) (simp add: occ)
  have a: "proposal k (snd (sample_position s)) \<notin> set (snake (snd (sample_position s)))"
    using Suc.prems(1) by (simp add: proposal_Suc snake_sample_position)
  have b: "\<forall>j<k. proposal j (snd (sample_position s)) \<in> set (snake (snd (sample_position s)))"
    using Suc.prems(2) by (simp add: proposal_Suc snake_sample_position)
  from Suc.IH[OF a b] eq show ?case
    by (simp add: round_state_Suc)
qed

lemma randomEmptyPosition_never_free:
  assumes "\<forall>k. proposal k s \<in> set (snake s)"
  shows "randomEmptyPosition s = None"
proof (cases "randomEmptyPosition s")
  case None
  then show ?thesis .
next
  case (Some y)
  from randomEmptyPosition_result[OF this] obtain k where
    "y = sample_position (round_state k s)" "fst y \<notin> set (snake s)" by blast
  with assms show ?thesis by (simp add: proposal_def)
qed

lemma randomEmptyPosition_eventually:
  assumes "proposal k s \<notin> set (snake s)"
  shows "\<exists>j\<le>k. proposal j s \<notin> set (snake s)
       \<and> randomEmptyPosition s = Some (proposal j s, s\<lparr>rnd := sdrop (2 * Suc j) (rnd s)\<rparr>)"
proof -
  define j where "j = (LEAST j. proposal j s \<notin> set (snake s))"
  have free: "proposal j s \<notin> set (snake s)"
    unfolding j_def using assms by (rule LeastI)
  have le: "j \<le> k"
    unfolding j_def using assms by (rule Least_le)
  have "\<forall>i<j. proposal i s \<in> set (snake s)"
    unfolding j_def using not_less_Least by blast
  from randomEmptyPosition_first_free[OF free this]
  have A: "randomEmptyPosition s = Some (sample_position (round_state j s))" .
  have B: "sample_position (round_state j s)
      = (proposal j s, s\<lparr>rnd := sdrop (2 * Suc j) (rnd s)\<rparr>)"
    by (rule prod_eqI) (simp_all only: fst_conv snd_conv proposal_def sample_round_state)
  from A B have "randomEmptyPosition s = Some (proposal j s, s\<lparr>rnd := sdrop (2 * Suc j) (rnd s)\<rparr>)"
    by (simp only:)
  with free le show ?thesis by blast
qed

lemma randomEmptyPosition_least:
  "randomEmptyPosition s =
     (if \<exists>k. proposal k s \<notin> set (snake s)
      then Some (proposal (LEAST k. proposal k s \<notin> set (snake s)) s,
                 s\<lparr>rnd := sdrop (2 * Suc (LEAST k. proposal k s \<notin> set (snake s))) (rnd s)\<rparr>)
      else None)"
proof (cases "\<exists>k. proposal k s \<notin> set (snake s)")
  case True
  then obtain k where k: "proposal k s \<notin> set (snake s)" ..
  define j where "j = (LEAST k. proposal k s \<notin> set (snake s))"
  have free: "proposal j s \<notin> set (snake s)"
    unfolding j_def using k by (rule LeastI)
  have "\<forall>i<j. proposal i s \<in> set (snake s)"
    unfolding j_def using not_less_Least by blast
  from randomEmptyPosition_first_free[OF free this]
  have A: "randomEmptyPosition s = Some (sample_position (round_state j s))" .
  have B: "sample_position (round_state j s)
      = (proposal j s, s\<lparr>rnd := sdrop (2 * Suc j) (rnd s)\<rparr>)"
    by (rule prod_eqI) (simp_all only: fst_conv snd_conv proposal_def sample_round_state)
  from A B True show ?thesis
    unfolding j_def by (simp only: if_True)
next
  case False
  then show ?thesis
    by (simp add: randomEmptyPosition_never_free)
qed

lemma randomEmptyPosition_only_rnd:
  assumes "randomEmptyPosition s = Some (c, s')"
  shows "\<exists>rs. s' = s\<lparr>rnd := rs\<rparr>"
  using assms by (simp add: randomEmptyPosition_least split: if_splits) blast

lemma randomEmptyPosition_Some:
  assumes "randomEmptyPosition s = Some (c, s')"
  shows "c \<notin> set (snake s)" "snake s' = snake s" "\<exists>k. c = proposal k s"
proof -
  from randomEmptyPosition_result[OF assms] obtain k where
    k: "(c, s') = sample_position (round_state k s)" and free: "c \<notin> set (snake s)"
    by auto
  from free show "c \<notin> set (snake s)" .
  from randomEmptyPosition_only_rnd[OF assms] show "snake s' = snake s"
    by auto
  from k have "c = proposal k s"
    by (simp add: proposal_def flip: k)
  then show "\<exists>k. c = proposal k s" ..
qed

lemma randomEmptyPosition_audio:
  "randomEmptyPosition (s\<lparr>audioCtx := b, tones := n\<rparr>) =
     map_option (\<lambda>(c, t). (c, t\<lparr>audioCtx := b, tones := n\<rparr>)) (randomEmptyPosition s)"
  by (simp add: randomEmptyPosition_least)

section \<open>The cases of a tick\<close>

lemma apply_pending_frame:
  "snake (apply_pending s) = snake s" "food (apply_pending s) = food s"
  "score (apply_pending s) = score s" "running (apply_pending s) = running s"
  "intervalId (apply_pending s) = intervalId s" "timers (apply_pending s) = timers s"
  "rnd (apply_pending s) = rnd s"
  by (simp_all add: apply_pending_def split: option.split)

lemma endGame_frame:
  "snake (endGame s) = snake s" "food (endGame s) = food s" "score (endGame s) = score s"
  "\<not> running (endGame s)" "intervalId (endGame s) = intervalId s"
  "timers (endGame s) = timers s - set_option (intervalId s)"
  by (simp_all add: endGame_def clearInterval_def Let_def split: option.split)

lemma playBeep_only_audio: "\<exists>b n. playBeep a s = s\<lparr>audioCtx := b, tones := n\<rparr>"
proof (cases "\<not> audioCtx s \<and> ctor_throws a \<noteq> None")
  case True
  then have "playBeep a s = s\<lparr>audioCtx := audioCtx s, tones := tones s\<rparr>"
    by (simp add: playBeep_def playBeep_try_def)
  then show ?thesis by blast
next
  case False
  show ?thesis
  proof (cases "synth_throws a \<noteq> None")
    case True
    with False have "playBeep a s = s\<lparr>audioCtx := True, tones := tones s\<rparr>"
      by (auto simp: playBeep_def playBeep_try_def Let_def)
    then show ?thesis by blast
  next
    case no_throw: False
    with False have "playBeep a s = s\<lparr>audioCtx := True, tones := Suc (tones s)\<rparr>"
      by (auto simp: playBeep_def playBeep_try_def Let_def)
    then show ?thesis by blast
  qed
qed

lemma handleKeyDown_frame:
  "score (handleKeyDown k s) = score s" "snake (handleKeyDown k s) = snake s"
  by (simp_all add: handleKeyDown_def Let_def split: option.split)

lemma tick_running_cons:
  assumes "running s" "snake s = head # rest"
  shows "tick a s =
     (let s1 = apply_pending s; nh = newHead head (direction s1)
      in if nh \<in> set (snake s) then Some (Inr (endGame s1))
         else if food s = Some nh
           then (case randomEmptyPosition (playBeep a (s1\<lparr>snake := nh # snake s, score := score s + 1\<rparr>)) of
                   None \<Rightarrow> None
                 | Some (pos, s5) \<Rightarrow> Some (Inr (updateScoreboard (s5\<lparr>food := Some pos\<rparr>))))
           else Some (Inr (updateScoreboard (s1\<lparr>snake := nh # butlast (snake s)\<rparr>))))"
proof -
  have s1: "snake (apply_pending s) = snake s" "food (apply_pending s) = food s"
    "score (apply_pending s) = score s"
    by (simp_all add: apply_pending_def split: option.split)
  obtain nx ny where nh: "newHead head (direction (apply_pending s)) = (nx, ny)"
    by (cases "newHead head (direction (apply_pending s))")
  have eaten: "(food s \<noteq> None \<and> nx = fst (the (food s)) \<and> ny = snd (the (food s)))
      \<longleftrightarrow> food s = Some (nx, ny)"
    by (cases "food s") auto
  show ?thesis
    using assms eaten
    by (simp add: tick_def Let_def s1 nh hits_body_iff)
qed

text \<open>The state in which a feeding tick calls the food placement, up to the audio.\<close>

lemma tick_feeding_unfold:
  assumes "running s" "snake s = head # rest"
    and "nh = newHead head (direction (apply_pending s))"
    and "nh \<notin> set (snake s)" "food s = Some nh"
  shows "\<exists>b n. tick a s =
     map_option (\<lambda>(pos, t). Inr (updateScoreboard (t\<lparr>audioCtx := b, tones := n, food := Some pos\<rparr>)))
       (randomEmptyPosition ((apply_pending s)\<lparr>snake := nh # snake s, score := score s + 1\<rparr>))"
proof -
  let ?t = "(apply_pending s)\<lparr>snake := nh # snake s, score := score s + 1\<rparr>"
  obtain b n where bn: "playBeep a ?t = ?t\<lparr>audioCtx := b, tones := n\<rparr>"
    using playBeep_only_audio by blast
  have "tick a s = (case randomEmptyPosition (playBeep a ?t) of
                   None \<Rightarrow> None
                 | Some (pos, s5) \<Rightarrow> Some (Inr (updateScoreboard (s5\<lparr>food := Some pos\<rparr>))))"
    using assms(3-5) by (simp add: tick_running_cons[OF assms(1,2)] Let_def)
  also have "\<dots> = map_option
       (\<lambda>(pos, t). Inr (updateScoreboard (t\<lparr>audioCtx := b, tones := n, food := Some pos\<rparr>)))
       (randomEmptyPosition ?t)"
    by (simp add: bn randomEmptyPosition_audio split: option.split)
  finally show ?thesis by blast
qed

lemma tick_head:
  assumes "running s" "snake s = head # rest" "tick a s = Some (Inr s')"
    and "newHead head (direction (apply_pending s)) \<notin> set (snake s)"
  shows "hd (snake s') = newHead head (direction (apply_pending s))"
proof -
  let ?nh = "newHead head (direction (apply_pending s))"
  show ?thesis
  proof (cases "food s = Some ?nh")
    case True
    from tick_feeding_unfold[OF assms(1,2) refl assms(4) True, of a]
    obtain b n where t: "tick a s = map_option
        (\<lambda>(pos, t). Inr (updateScoreboard (t\<lparr>audioCtx := b, tones := n, food := Some pos\<rparr>)))
        (randomEmptyPosition ((apply_pending s)\<lparr>snake := ?nh # snake s, score := score s + 1\<rparr>))"
      by blast
    with assms(3) obtain y where
      y: "randomEmptyPosition ((apply_pending s)\<lparr>snake := ?nh # snake s, score := score s + 1\<rparr>)
            = Some y"
      by (cases "randomEmptyPosition ((apply_pending s)\<lparr>snake := ?nh # snake s, score := score s + 1\<rparr>)")
         simp_all
    obtain pos u where yp: "y = (pos, u)" by (cases y)
    from randomEmptyPosition_Some(2)[OF y[unfolded yp]] have "snake u = ?nh # snake s"
      by simp
    moreover from assms(3) have "s' = updateScoreboard (u\<lparr>audioCtx := b, tones := n, food := Some pos\<rparr>)"
      by (simp add: t y yp)
    ultimately show ?thesis
      by (simp add: updateScoreboard_def)
  next
    case False
    with assms(3,4)
    have "s' = updateScoreboard ((apply_pending s)\<lparr>snake := ?nh # butlast (snake s)\<rparr>)"
      by (simp add: tick_running_cons[OF assms(1,2)] Let_def)
    then show ?thesis
      by (simp add: updateScoreboard_def)
  qed
qed

lemma tick_score_length:
  assumes "tick a s = Some (Inr s')"
  shows "(score s' = score s + 1 \<and> length (snake s') = length (snake s) + 1)
       \<or> (score s' = score s \<and> length (snake s') = length (snake s))"
proof (cases "running s")
  case False
  with assms show ?thesis by (simp add: tick_def)
next
  case True
  show ?thesis
  proof (cases "snake s")
    case Nil
    with True assms show ?thesis
      by (simp add: tick_def apply_pending_frame Let_def)
  next
    case (Cons head rest)
    define nh where "nh = newHead head (direction (apply_pending s))"
    note unfold = tick_running_cons[OF True Cons, of a]
    consider (hit) "nh \<in> set (snake s)"
      | (eat) "nh \<notin> set (snake s)" "food s = Some nh"
      | (move) "nh \<notin> set (snake s)" "food s \<noteq> Some nh"
      by blast
    then show ?thesis
    proof cases
      case hit
      have "s' = endGame (apply_pending s)"
        using hit assms unfold unfolding nh_def by (simp add: Let_def)
      then show ?thesis
        by (simp add: endGame_frame apply_pending_frame)
    next
      case eat
      from tick_feeding_unfold[OF True Cons nh_def eat, of a]
      obtain b n where t: "tick a s = map_option
          (\<lambda>(pos, t). Inr (updateScoreboard (t\<lparr>audioCtx := b, tones := n, food := Some pos\<rparr>)))
          (randomEmptyPosition ((apply_pending s)\<lparr>snake := nh # snake s, score := score s + 1\<rparr>))"
        by blast
      with assms obtain y where
        y: "randomEmptyPosition ((apply_pending s)\<lparr>snake := nh # snake s, score := score s + 1\<rparr>)
              = Some y"
        by (cases "randomEmptyPosition ((apply_pending s)\<lparr>snake := nh # snake s, score := score s + 1\<rparr>)")
           simp_all
      obtain pos t where yp: "y = (pos, t)" by (cases y)
      note r = y[unfolded yp]
      from assms have s': "s' = updateScoreboard (t\<lparr>audioCtx := b, tones := n, food := Some pos\<rparr>)"
        by (simp add: t r)
      from randomEmptyPosition_only_rnd[OF r] obtain rs where
        "t = (apply_pending s)\<lparr>snake := nh # snake s, score := score s + 1, rnd := rs\<rparr>"
        by auto
      with s' show ?thesis
        by (simp add: updateScoreboard_def)
    next
      case move
      have "s' = updateScoreboard ((apply_pending s)\<lparr>snake := nh # butlast (snake s)\<rparr>)"
        using move assms unfold unfolding nh_def by (simp add: Let_def)
      then show ?thesis
        using Cons by (simp add: updateScoreboard_def apply_pending_frame)
    qed
  qed
qed

section \<open>Starting a game\<close>

text \<open>The state in which \<open>startGame\<close> calls the food placement.\<close>

lemma startGame_unfold:
  "startGame v s =
     (case randomEmptyPosition
        (s\<lparr>playerName := (if trim v = [] then Spieler else trim v),
            snake := [(20, 15), (19, 15), (18, 15)], direction := (1, 0),
            pendingDirection := None\<rparr>) of
        None \<Rightarrow> None
      | Some (pos, t) \<Rightarrow>
          Some (t\<lparr>food := Some pos, score := int (length (snake t)),
                  scoreboard := Some (playerName t, int (length (snake t))), running := True,
                  timers := insert (next_timer t) (timers t), next_timer := Suc (next_timer t),
                  intervalId := Some (next_timer t)\<rparr>))"
  by (simp add: startGame_def Let_def Math_floor_def BOARD_WIDTH_def BOARD_HEIGHT_def
      updateScoreboard_def setInterval_def split: option.split)

lemma startGame_score:
  assumes "startGame v s = Some s'"
  shows "score s' = int (length (snake s'))"
proof -
  from assms obtain pos t where
    "s' = t\<lparr>food := Some pos, score := int (length (snake t)),
                  scoreboard := Some (playerName t, int (length (snake t))), running := True,
                  timers := insert (next_timer t) (timers t), next_timer := Suc (next_timer t),
                  intervalId := Some (next_timer t)\<rparr>"
    by (auto simp: startGame_unfold split: option.splits)
  then show ?thesis by simp
qed

lemma reachable_score: "reachable s \<Longrightarrow> score s = int (length (snake s))"
proof (induction rule: reachable.induct)
  case (loaded rs)
  show ?case by (simp add: initial_state_def)
next
  case (click s v s')
  then show ?case by (simp add: startBtn_click_def startGame_score)
next
  case (key s k)
  then show ?case by (simp add: handleKeyDown_frame)
next
  case (timer s a s')
  from tick_score_length[OF timer.hyps(2)] timer.IH show ?case by auto
qed

section \<open>Runs on concrete states\<close>

lemma toLowerCase_ArrowLeft: "toLowerCase ''ArrowLeft'' = ''arrowleft''"
  by code_simp

lemma toLowerCase_S: "toLowerCase ''S'' = ''s''"
  by code_simp

lemma trim_empty: "trim [] = []"
  by (simp add: trim_def)

text \<open>
  The products of the double nearest to 0.7 with 40 and with 30: the exact products end
  in the digits 10000 and 10100 below the 53rd, so the first is a tie that goes up to the
  even neighbour and the second lies above the middle. Both roundings reach the next
  integer, 28 and 21, while the exact products lie below it.
\<close>

lemma bit_length_0_7_times_40: "bit_length 252201579132747760 = 58"
  using bit_length_eqI [of 57 252201579132747760] by simp

lemma bit_length_0_7_times_30: "bit_length 189151184349560820 = 58"
  using bit_length_eqI [of 57 189151184349560820] by simp

lemma dbl_0_7_times_40:
  "js_times dbl_0_7 (Number_of_int BOARD_WIDTH) = Double 7881299347898368 (- 48)"
  by (simp add: js_times_def Number_of_int_def dbl_0_7_def BOARD_WIDTH_def
      bit_length_0_7_times_40 round_shift_def Let_def)

lemma dbl_0_7_times_30:
  "js_times dbl_0_7 (Number_of_int BOARD_HEIGHT) = Double 5910974510923776 (- 48)"
  by (simp add: js_times_def Number_of_int_def dbl_0_7_def BOARD_HEIGHT_def
      bit_length_0_7_times_30 round_shift_def Let_def)

lemma dbl_0_7_exact_products:
  "\<lfloor>val dbl_0_7 * 40\<rfloor> = 27" "\<lfloor>val dbl_0_7 * 30\<rfloor> = 20"
  by (simp_all add: val_def dbl_0_7_def)

lemma randomEmptyPosition_example:
  "randomEmptyPosition (game_state [(20, 15), (19, 15), (18, 15)] (1, 0) f
       (Double 33 (- 6) ## Double 33 (- 6) ## dbl_0_7 ## dbl_0_7 ## sconst (Double 0 0)))
     = Some ((28, 21), game_state [(20, 15), (19, 15), (18, 15)] (1, 0) f (sconst (Double 0 0)))"
proof -
  let ?s = "game_state [(20, 15), (19, 15), (18, 15)] (1, 0) f
       (Double 33 (- 6) ## Double 33 (- 6) ## dbl_0_7 ## dbl_0_7 ## sconst (Double 0 0))"
  let ?m = "game_state [(20, 15), (19, 15), (18, 15)] (1, 0) f
       (dbl_0_7 ## dbl_0_7 ## sconst (Double 0 0))"
  let ?t = "game_state [(20, 15), (19, 15), (18, 15)] (1, 0) f (sconst (Double 0 0))"
  have first: "sample_position ?s = ((20, 15), ?m)"
    by (simp add: sample_position_def Math_random_def Math_floor_def js_times_small val_def
        game_state_def BOARD_WIDTH_def BOARD_HEIGHT_def)
  have second: "sample_position ?m = ((28, 21), ?t)"
    by (simp add: sample_position_def Math_random_def Math_floor_def game_state_def
        dbl_0_7_times_40 dbl_0_7_times_30 val_def)
  have "randomEmptyPosition ?s = randomEmptyPosition ?m"
    using first_round_occupied[of ?s]
    by (simp only: first fst_conv snd_conv) (simp add: game_state_def)
  also have "\<dots> = Some ((28, 21), ?t)"
    using first_round_free[of ?m]
    by (simp only: second fst_conv snd_conv) (simp add: game_state_def)
  finally show ?thesis .
qed

lemma click_after_loading:
  "startBtn_click [] (initial_state (Double 33 (- 6) ## Double 33 (- 6) ## sconst (Double 0 0)))
     = Some (game_state [(20, 15), (19, 15), (18, 15)] (1, 0) (Some (0, 0)) (sconst (Double 0 0)))"
proof -
  let ?s4 = "(initial_state (Double 33 (- 6) ## Double 33 (- 6) ## sconst (Double 0 0)))
      \<lparr>startScreen_hidden := True, gameContainer_hidden := False,
       playerName := Spieler, snake := [(20, 15), (19, 15), (18, 15)],
       direction := (1, 0), pendingDirection := None\<rparr>"
  let ?t = "?s4\<lparr>rnd := sconst (Double 0 0)\<rparr>"
  have first: "sample_position ?s4 = ((20, 15), ?t)"
    by (simp add: sample_position_def Math_random_def Math_floor_def js_times_small val_def initial_state_def
        BOARD_WIDTH_def BOARD_HEIGHT_def)
  have second: "sample_position ?t = ((0, 0), ?t)"
    by (simp add: sample_position_def Math_random_def Math_floor_def js_times_small val_def initial_state_def
        BOARD_WIDTH_def BOARD_HEIGHT_def)
  have "randomEmptyPosition ?s4 = randomEmptyPosition ?t"
    using first_round_occupied[of ?s4]
    by (simp only: first fst_conv snd_conv) (simp add: initial_state_def)
  also have "\<dots> = Some ((0, 0), ?t)"
    using first_round_free[of ?t]
    by (simp only: second fst_conv snd_conv) (simp add: initial_state_def)
  finally have "randomEmptyPosition ?s4 = Some ((0, 0), ?t)" .
  then show ?thesis
    by (simp add: startBtn_click_def startGame_unfold trim_empty)
       (simp add: initial_state_def game_state_def)
qed

lemma plain_tick_example:
  "tick audio_ok (game_state [(20, 15), (19, 15), (18, 15)] (1, 0) (Some (0, 0)) (sconst (Double 0 0)))
     = Some (Inr ((game_state [(21, 15), (20, 15), (19, 15)] (1, 0) (Some (0, 0)) (sconst (Double 0 0)))))"
proof -
  let ?s = "game_state [(20, 15), (19, 15), (18, 15)] (1, 0) (Some (0, 0)) (sconst (Double 0 0))"
  have "running ?s" "snake ?s = (20, 15) # [(19, 15), (18, 15)]"
    by (simp_all add: game_state_def)
  from tick_running_cons[OF this, of audio_ok] show ?thesis
    by (simp add: game_state_def apply_pending_def newHead_def js_rem_def
        BOARD_WIDTH_def BOARD_HEIGHT_def updateScoreboard_def Let_def)
qed

lemma border_tick_example:
  "tick audio_ok (game_state [(39, 0), (38, 0), (37, 0)] (1, 0) (Some (5, 5)) (sconst (Double 0 0)))
     = Some (Inr ((game_state [(0, 0), (39, 0), (38, 0)] (1, 0) (Some (5, 5)) (sconst (Double 0 0)))))"
proof -
  let ?s = "game_state [(39, 0), (38, 0), (37, 0)] (1, 0) (Some (5, 5)) (sconst (Double 0 0))"
  have "running ?s" "snake ?s = (39, 0) # [(38, 0), (37, 0)]"
    by (simp_all add: game_state_def)
  from tick_running_cons[OF this, of audio_ok] show ?thesis
    by (simp add: game_state_def apply_pending_def newHead_def js_rem_def
        BOARD_WIDTH_def BOARD_HEIGHT_def updateScoreboard_def Let_def)
qed

subsection \<open>The nearly full board\<close>

lemma set_board_row: "set (board_row y) = (\<lambda>x. (x, y)) ` {0..39}"
  by (simp add: board_row_def)

lemma set_nearly_full_snake:
  "set nearly_full_snake = (\<lambda>x. (x, 0)) ` {1..39} \<union> (\<Union>y\<in>{1..29}. (\<lambda>x. (x, y)) ` {0..39})"
  by (simp add: nearly_full_snake_def set_board_row del: upto.simps upto_rec_numeral)

lemma origin_not_in_nearly_full_snake: "(0, 0) \<notin> set nearly_full_snake"
  by (auto simp: set_nearly_full_snake)

lemma board_covered:
  assumes "0 \<le> x" "x < BOARD_WIDTH" "0 \<le> y" "y < BOARD_HEIGHT"
  shows "(x, y) \<in> set ((0, 0) # nearly_full_snake)"
proof (cases "y = 0")
  case True
  with assms show ?thesis
    by (cases "x = 0") (auto simp: set_nearly_full_snake BOARD_WIDTH_def)
next
  case False
  with assms have "y \<in> {1..29}" "x \<in> {0..39}"
    by (auto simp: BOARD_WIDTH_def BOARD_HEIGHT_def)
  then have "(x, y) \<in> (\<Union>y\<in>{1..29}. (\<lambda>x. (x, y)) ` {0..39})"
    by blast
  then show ?thesis
    by (simp only: set_nearly_full_snake list.set Un_iff insert_iff simp_thms)
qed

lemma nearly_full_snake_head: "nearly_full_snake = (1, 0) # tl nearly_full_snake"
proof -
  have "[1..39] = 1 # [2..39]"
    by (subst upto.simps) simp
  then show ?thesis
    by (simp add: nearly_full_snake_def del: upto.simps upto_rec_numeral)
qed

lemma full_board_never_places:
  assumes "Math_random_contract (rnd s)" "snake s = (0, 0) # nearly_full_snake"
  shows "randomEmptyPosition s = None"
proof (rule randomEmptyPosition_never_free, rule allI)
  fix k
  from proposal_in_range[OF assms(1), of k]
  have "(fst (proposal k s), snd (proposal k s)) \<in> set ((0, 0) # nearly_full_snake)"
    by (intro board_covered) simp_all
  then show "proposal k s \<in> set (snake s)"
    by (simp add: assms(2))
qed

section \<open>The claims\<close>

subsection \<open>Self-collision\<close>

text \<open>
  Claim C1. In a running game, when the new head (computed from the head and the
  direction in force after the pending one is taken over) is a cell of the snake, the
  last cell included, \<open>tick\<close> returns normally with \<open>running\<close> false and the interval
  timer named by \<open>intervalId\<close> cleared, and the snake, the food and the score are as they
  were before the call.
\<close>

theorem tick_self_collision:
  assumes "running s" "snake s = head # rest"
    and "newHead head (direction (apply_pending s)) \<in> set (snake s)"
  shows "\<exists>s'. tick a s = Some (Inr s') \<and> \<not> running s'
           \<and> (\<forall>i. intervalId s = Some i \<longrightarrow> i \<notin> timers s')
           \<and> snake s' = snake s \<and> food s' = food s \<and> score s' = score s"
proof -
  have "tick a s = Some (Inr (endGame (apply_pending s)))"
    using assms(3) by (simp add: tick_running_cons[OF assms(1,2)] Let_def)
  moreover have "\<forall>i. intervalId s = Some i \<longrightarrow> i \<notin> timers (endGame (apply_pending s))"
    by (simp add: endGame_frame apply_pending_frame)
  ultimately show ?thesis
    by (simp add: endGame_frame apply_pending_frame)
qed

theorem tick_self_collision_witness:
  "running ((game_state [(5, 5), (5, 6), (6, 6), (6, 5)] (0, -1) (Some (3, 4)) (sconst (Double 0 0)))
              \<lparr>pendingDirection := Some (1, 0)\<rparr>)
   \<and> snake ((game_state [(5, 5), (5, 6), (6, 6), (6, 5)] (0, -1) (Some (3, 4)) (sconst (Double 0 0)))
              \<lparr>pendingDirection := Some (1, 0)\<rparr>) = (5, 5) # [(5, 6), (6, 6), (6, 5)]
   \<and> newHead (5, 5) (1, 0) = (6, 5)
   \<and> (\<exists>s'. tick audio_ok ((game_state [(5, 5), (5, 6), (6, 6), (6, 5)] (0, -1) (Some (3, 4)) (sconst (Double 0 0)))
              \<lparr>pendingDirection := Some (1, 0)\<rparr>) = Some (Inr s')
         \<and> \<not> running s' \<and> 1 \<notin> timers s'
         \<and> snake s' = [(5, 5), (5, 6), (6, 6), (6, 5)] \<and> food s' = Some (3, 4) \<and> score s' = 4)"
  using tick_self_collision
    [of "(game_state [(5, 5), (5, 6), (6, 6), (6, 5)] (0, -1) (Some (3, 4)) (sconst (Double 0 0)))
              \<lparr>pendingDirection := Some (1, 0)\<rparr>" "(5, 5)" "[(5, 6), (6, 6), (6, 5)]" audio_ok]
  by (simp add: game_state_def apply_pending_def newHead_def js_rem_def
      BOARD_WIDTH_def BOARD_HEIGHT_def)

subsection \<open>Feeding\<close>

text \<open>
  Claim C2, as amended. In a running game, when the new head is not a cell of the snake
  and is the food cell, and some round \<open>k\<close> of the food placement proposes a cell
  outside the grown snake, \<open>tick\<close> returns normally; the new snake is the new head in
  front of the whole old snake (one cell longer, no tail removed), the score is one
  higher, and the new food cell is not a cell of the new snake.
\<close>

theorem tick_feeding_grows:
  assumes "running s" "snake s = head # rest"
    and "nh = newHead head (direction (apply_pending s))"
    and "nh \<notin> set (snake s)" "food s = Some nh"
    and "proposal k s \<notin> set (nh # snake s)"
  shows "\<exists>s' f. tick a s = Some (Inr s') \<and> snake s' = nh # snake s
           \<and> length (snake s') = length (snake s) + 1 \<and> score s' = score s + 1
           \<and> food s' = Some f \<and> f \<notin> set (snake s')"
proof -
  let ?t = "(apply_pending s)\<lparr>snake := nh # snake s, score := score s + 1\<rparr>"
  from tick_feeding_unfold[OF assms(1-5)] obtain b n where
    t: "tick a s =
     map_option (\<lambda>(pos, t). Inr (updateScoreboard (t\<lparr>audioCtx := b, tones := n, food := Some pos\<rparr>)))
       (randomEmptyPosition ?t)" by blast
  have "proposal k ?t = proposal k s"
    by (rule proposal_cong) (simp add: apply_pending_frame)
  with assms(6) have "proposal k ?t \<notin> set (snake ?t)" by simp
  from randomEmptyPosition_eventually[OF this] obtain j where
    j: "proposal j ?t \<notin> set (snake ?t)"
    "randomEmptyPosition ?t = Some (proposal j ?t, ?t\<lparr>rnd := sdrop (2 * Suc j) (rnd ?t)\<rparr>)"
    by blast
  let ?s' = "updateScoreboard (?t\<lparr>rnd := sdrop (2 * Suc j) (rnd ?t),
                 audioCtx := b, tones := n, food := Some (proposal j ?t)\<rparr>)"
  have "tick a s = Some (Inr ?s')"
    by (simp add: t j(2))
  moreover have "snake ?s' = nh # snake s" "score ?s' = score s + 1"
    "food ?s' = Some (proposal j ?t)"
    by (simp_all add: updateScoreboard_def)
  moreover have "proposal j ?t \<notin> set (snake ?s')"
    using j(1) by (simp add: updateScoreboard_def)
  ultimately show ?thesis
    by (intro exI[of _ ?s'] exI[of _ "proposal j ?t"]) simp
qed

theorem tick_feeding_grows_witness:
  "running (game_state [(20, 15), (19, 15), (18, 15)] (1, 0) (Some (21, 15)) (Double 17 (- 5) ## Double 33 (- 6) ## sconst (Double 0 0)))
   \<and> snake (game_state [(20, 15), (19, 15), (18, 15)] (1, 0) (Some (21, 15)) (Double 17 (- 5) ## Double 33 (- 6) ## sconst (Double 0 0)))
       = (20, 15) # [(19, 15), (18, 15)]
   \<and> (21, 15) = newHead (20, 15) (direction (apply_pending
         (game_state [(20, 15), (19, 15), (18, 15)] (1, 0) (Some (21, 15)) (Double 17 (- 5) ## Double 33 (- 6) ## sconst (Double 0 0)))))
   \<and> (21, 15) \<notin> set [(20, 15), (19, 15), (18::int, 15::int)]
   \<and> proposal 0 (game_state [(20, 15), (19, 15), (18, 15)] (1, 0) (Some (21, 15)) (Double 17 (- 5) ## Double 33 (- 6) ## sconst (Double 0 0)))
       = (21, 15)
   \<and> proposal 1 (game_state [(20, 15), (19, 15), (18, 15)] (1, 0) (Some (21, 15)) (Double 17 (- 5) ## Double 33 (- 6) ## sconst (Double 0 0)))
       = (0, 0)
   \<and> (\<exists>s' f. tick audio_ok
           (game_state [(20, 15), (19, 15), (18, 15)] (1, 0) (Some (21, 15)) (Double 17 (- 5) ## Double 33 (- 6) ## sconst (Double 0 0)))
           = Some (Inr s')
         \<and> snake s' = [(21, 15), (20, 15), (19, 15), (18, 15)] \<and> score s' = 4
         \<and> food s' = Some f \<and> f \<notin> set (snake s'))"
proof -
  let ?s = "game_state [(20, 15), (19, 15), (18, 15)] (1, 0) (Some (21, 15)) (Double 17 (- 5) ## Double 33 (- 6) ## sconst (Double 0 0))"
  have run: "running ?s" and sn: "snake ?s = (20, 15) # [(19, 15), (18, 15)]"
    and fd: "food ?s = Some (21, 15)" and sc: "score ?s = 3"
    by (simp_all add: game_state_def)
  have nh: "(21, 15) = newHead (20, 15) (direction (apply_pending ?s))"
    by (simp add: game_state_def apply_pending_def newHead_def js_rem_def
        BOARD_WIDTH_def BOARD_HEIGHT_def)
  have p0: "proposal 0 ?s = (21, 15)"
    by (simp add: proposal_cell game_state_def Math_floor_def js_times_small val_def BOARD_WIDTH_def BOARD_HEIGHT_def)
  have p1: "proposal 1 ?s = (0, 0)"
    by (simp add: proposal_cell game_state_def Math_floor_def js_times_small val_def numeral_2_eq_2)
  have free: "(21, 15) \<notin> set (snake ?s)" "proposal 1 ?s \<notin> set ((21, 15) # snake ?s)"
    using p1 by (simp_all add: sn)
  from tick_feeding_grows [OF run sn nh free(1) fd free(2), of audio_ok]
  obtain s' f where "tick audio_ok ?s = Some (Inr s')" "snake s' = (21, 15) # snake ?s"
    "score s' = score ?s + 1" "food s' = Some f" "f \<notin> set (snake s')"
    by blast
  then have "tick audio_ok ?s = Some (Inr s')
         \<and> snake s' = [(21, 15), (20, 15), (19, 15), (18, 15)] \<and> score s' = 4
         \<and> food s' = Some f \<and> f \<notin> set (snake s')"
    by (simp add: sn sc)
  then have "\<exists>s' f. tick audio_ok ?s = Some (Inr s')
         \<and> snake s' = [(21, 15), (20, 15), (19, 15), (18, 15)] \<and> score s' = 4
         \<and> food s' = Some f \<and> f \<notin> set (snake s')"
    by blast
  moreover have "(21, 15) \<notin> set [(20, 15), (19, 15), (18::int, 15::int)]"
    by simp
  ultimately show ?thesis
    using run sn nh p0 p1 by blast
qed

text \<open>
  On the nearly full board the tick is a feeding tick, and after the snake has grown
  onto the last free cell the food placement finds no cell to return: the tick never
  returns, and no new food is placed.
\<close>

theorem tick_feeding_full_board_counterexample:
  "running nearly_full_board \<and> hd (snake nearly_full_board) = (1, 0)
   \<and> newHead (1, 0) (direction (apply_pending nearly_full_board)) = (0, 0)
   \<and> (0, 0) \<notin> set (snake nearly_full_board)
   \<and> food nearly_full_board = Some (0, 0)
   \<and> tick audio_ok nearly_full_board = None"
proof -
  have run: "running nearly_full_board"
    and sn: "snake nearly_full_board = (1, 0) # tl nearly_full_snake"
    and fd: "food nearly_full_board = Some (0, 0)"
    using nearly_full_snake_head by (simp_all add: nearly_full_board_def game_state_def)
  have sn': "snake nearly_full_board = nearly_full_snake"
    by (simp add: nearly_full_board_def game_state_def)
  have nh: "(0, 0) = newHead (1, 0) (direction (apply_pending nearly_full_board))"
    by (simp add: nearly_full_board_def game_state_def apply_pending_def newHead_def js_rem_def
        BOARD_WIDTH_def BOARD_HEIGHT_def)
  have free: "(0, 0) \<notin> set (snake nearly_full_board)"
    by (simp add: sn' origin_not_in_nearly_full_snake)
  let ?t = "(apply_pending nearly_full_board)
      \<lparr>snake := (0, 0) # snake nearly_full_board, score := score nearly_full_board + 1\<rparr>"
  have "Math_random_contract (rnd ?t)"
    by (simp add: apply_pending_frame)
       (simp add: nearly_full_board_def game_state_def Math_random_contract_def
          is_double_def val_def)
  then have "randomEmptyPosition ?t = None"
    by (rule full_board_never_places) (simp add: sn')
  with tick_feeding_unfold [OF run sn nh free fd, of audio_ok]
  have "tick audio_ok nearly_full_board = None" by auto
  with run sn nh free fd show ?thesis by simp
qed

subsection \<open>Plain move\<close>

text \<open>
  Claim C3. In a running game, when the new head is neither a cell of the snake nor the
  food cell (also when there is no food), \<open>tick\<close> returns normally; the new snake is
  the new head followed by the old snake without its last cell, so its length is
  unchanged and the new head is at index 0; food and score are unchanged.
\<close>

theorem tick_plain_move:
  assumes "running s" "snake s = head # rest"
    and "nh = newHead head (direction (apply_pending s))"
    and "nh \<notin> set (snake s)" "food s \<noteq> Some nh"
  shows "\<exists>s'. tick a s = Some (Inr s') \<and> snake s' = nh # butlast (snake s)
           \<and> length (snake s') = length (snake s) \<and> snake s' ! 0 = nh
           \<and> food s' = food s \<and> score s' = score s"
proof -
  have "tick a s = Some (Inr (updateScoreboard ((apply_pending s)\<lparr>snake := nh # butlast (snake s)\<rparr>)))"
    using assms(3-5) by (simp add: tick_running_cons[OF assms(1,2)] Let_def)
  moreover have "length (nh # butlast (snake s)) = length (snake s)"
    using assms(2) by simp
  ultimately show ?thesis
    by (simp add: updateScoreboard_def apply_pending_frame)
qed

theorem tick_plain_move_witness:
  "running (game_state [(20, 15), (19, 15), (18, 15)] (1, 0) (Some (3, 4)) (sconst (Double 0 0)))
   \<and> snake (game_state [(20, 15), (19, 15), (18, 15)] (1, 0) (Some (3, 4)) (sconst (Double 0 0)))
        = (20, 15) # [(19, 15), (18, 15)]
   \<and> (21, 15) = newHead (20, 15)
        (direction (apply_pending (game_state [(20, 15), (19, 15), (18, 15)] (1, 0) (Some (3, 4)) (sconst (Double 0 0)))))
   \<and> (21, 15) \<notin> set [(20, 15), (19, 15), (18::int, 15::int)]
   \<and> food (game_state [(20, 15), (19, 15), (18, 15)] (1, 0) (Some (3, 4)) (sconst (Double 0 0))) \<noteq> Some (21, 15)
   \<and> (\<exists>s'. tick audio_ok (game_state [(20, 15), (19, 15), (18, 15)] (1, 0) (Some (3, 4)) (sconst (Double 0 0)))
              = Some (Inr s')
         \<and> snake s' = [(21, 15), (20, 15), (19, 15)] \<and> food s' = Some (3, 4) \<and> score s' = 3)"
  using tick_plain_move
    [of "game_state [(20, 15), (19, 15), (18, 15)] (1, 0) (Some (3, 4)) (sconst (Double 0 0))"
        "(20, 15)" "[(19, 15), (18, 15)]" "(21, 15)" audio_ok]
  by (auto simp: game_state_def apply_pending_def newHead_def js_rem_def
      BOARD_WIDTH_def BOARD_HEIGHT_def)

subsection \<open>Reversal keys\<close>

text \<open>
  Claim C4. Let \<open>d\<close> be the vector of a recognised key. If \<open>d\<close> is the componentwise
  negation of the active direction, \<open>handleKeyDown\<close> changes nothing, so the pending
  direction stays what it was. Otherwise \<open>d\<close> becomes the pending direction whatever
  was pending before: the test reads \<open>direction\<close> only, never \<open>pendingDirection\<close>.
\<close>

theorem handleKeyDown_reversal_ignored:
  assumes "map_of key_map (toLowerCase k) = Some d"
  shows "(d = (- fst (direction s), - snd (direction s)) \<longrightarrow> handleKeyDown k s = s)
       \<and> (d \<noteq> (- fst (direction s), - snd (direction s)) \<longrightarrow>
            handleKeyDown k s = s\<lparr>pendingDirection := Some d\<rparr>)"
  using assms by (cases d) (auto simp: handleKeyDown_def Let_def)

theorem handleKeyDown_reversal_ignored_witness:
  "map_of key_map (toLowerCase ''ArrowLeft'') = Some (-1, 0)
   \<and> (-1, 0) = (- fst (direction ((initial_state (sconst (Double 0 0)))\<lparr>pendingDirection := Some (0, -1)\<rparr>)),
                - snd (direction ((initial_state (sconst (Double 0 0)))\<lparr>pendingDirection := Some (0, -1)\<rparr>)))
   \<and> pendingDirection
        (handleKeyDown ''ArrowLeft'' ((initial_state (sconst (Double 0 0)))\<lparr>pendingDirection := Some (0, -1)\<rparr>))
       = Some (0, -1)
   \<and> map_of key_map (toLowerCase ''S'') = Some (0, 1)
   \<and> pendingDirection
        (handleKeyDown ''S'' ((initial_state (sconst (Double 0 0)))\<lparr>pendingDirection := Some (0, -1)\<rparr>))
       = Some (0, 1)"
  using handleKeyDown_reversal_ignored
      [of "''ArrowLeft''" "(-1, 0)" "(initial_state (sconst (Double 0 0)))\<lparr>pendingDirection := Some (0, -1)\<rparr>"]
    handleKeyDown_reversal_ignored
      [of "''S''" "(0, 1)" "(initial_state (sconst (Double 0 0)))\<lparr>pendingDirection := Some (0, -1)\<rparr>"]
  by (simp add: toLowerCase_ArrowLeft toLowerCase_S key_map_def initial_state_def)

subsection \<open>Wrap-around\<close>

text \<open>
  Claim C5. For a head \<open>(x, y)\<close> on the board and the vector \<open>d\<close> of any key of the key
  map, the new head that \<open>tick\<close> computes with JavaScript's \<open>%\<close> is
  \<open>((x + dx + WIDTH) mod WIDTH, (y + dy + HEIGHT) mod HEIGHT)\<close>, and that cell is the
  head of the snake after a tick that returns without a collision. At the four borders:
  right from the last column leads to column 0, left from column 0 to the last column,
  down from the last row to row 0, up from row 0 to the last row.
\<close>

theorem newHead_wraparound:
  assumes "0 \<le> x" "x < BOARD_WIDTH" "0 \<le> y" "y < BOARD_HEIGHT" "d \<in> snd ` set key_map"
  shows "newHead (x, y) d =
           ((x + fst d + BOARD_WIDTH) mod BOARD_WIDTH, (y + snd d + BOARD_HEIGHT) mod BOARD_HEIGHT)
       \<and> (running s \<and> snake s = (x, y) # rest \<and> direction (apply_pending s) = d
            \<and> newHead (x, y) d \<notin> set (snake s) \<and> tick a s = Some (Inr s') \<longrightarrow>
          hd (snake s') =
            ((x + fst d + BOARD_WIDTH) mod BOARD_WIDTH, (y + snd d + BOARD_HEIGHT) mod BOARD_HEIGHT))
       \<and> (x = BOARD_WIDTH - 1 \<longrightarrow> newHead (x, y) (1, 0) = (0, y))
       \<and> (x = 0 \<longrightarrow> newHead (x, y) (-1, 0) = (BOARD_WIDTH - 1, y))
       \<and> (y = BOARD_HEIGHT - 1 \<longrightarrow> newHead (x, y) (0, 1) = (x, 0))
       \<and> (y = 0 \<longrightarrow> newHead (x, y) (0, -1) = (x, BOARD_HEIGHT - 1))"
proof -
  from assms(5) have d: "fst d \<in> {-1, 0, 1}" "snd d \<in> {-1, 0, 1}"
    by (auto simp: key_map_def)
  have "0 \<le> x + fst d + BOARD_WIDTH" "0 \<le> y + snd d + BOARD_HEIGHT"
    using assms(1-4) d by (auto simp: BOARD_WIDTH_def BOARD_HEIGHT_def)
  then have general: "newHead (x, y) d =
      ((x + fst d + BOARD_WIDTH) mod BOARD_WIDTH, (y + snd d + BOARD_HEIGHT) mod BOARD_HEIGHT)"
    by (simp add: newHead_def js_rem_nonneg BOARD_WIDTH_def BOARD_HEIGHT_def)
  have in_tick: "running s \<and> snake s = (x, y) # rest \<and> direction (apply_pending s) = d
            \<and> newHead (x, y) d \<notin> set (snake s) \<and> tick a s = Some (Inr s') \<longrightarrow>
          hd (snake s') =
            ((x + fst d + BOARD_WIDTH) mod BOARD_WIDTH, (y + snd d + BOARD_HEIGHT) mod BOARD_HEIGHT)"
    using tick_head[of s "(x, y)" rest a s'] general by auto
  have borders: "js_rem (x + BOARD_WIDTH) BOARD_WIDTH = x" "js_rem (y + BOARD_HEIGHT) BOARD_HEIGHT = y"
    using assms(1-4) by (simp_all add: js_rem_nonneg BOARD_WIDTH_def BOARD_HEIGHT_def)
  have right: "x = BOARD_WIDTH - 1 \<longrightarrow> newHead (x, y) (1, 0) = (0, y)"
    using borders by (simp add: newHead_def js_rem_def BOARD_WIDTH_def)
  have left: "x = 0 \<longrightarrow> newHead (x, y) (-1, 0) = (BOARD_WIDTH - 1, y)"
    using borders by (simp add: newHead_def js_rem_def BOARD_WIDTH_def)
  have down: "y = BOARD_HEIGHT - 1 \<longrightarrow> newHead (x, y) (0, 1) = (x, 0)"
    using borders by (simp add: newHead_def js_rem_def BOARD_HEIGHT_def)
  have up: "y = 0 \<longrightarrow> newHead (x, y) (0, -1) = (x, BOARD_HEIGHT - 1)"
    using borders by (simp add: newHead_def js_rem_def BOARD_HEIGHT_def)
  from general in_tick right left down up show ?thesis by blast
qed

theorem newHead_wraparound_witness:
  "(0::int) \<le> 39 \<and> 39 < BOARD_WIDTH \<and> (0::int) \<le> 0 \<and> 0 < BOARD_HEIGHT
   \<and> (1, 0) \<in> snd ` set key_map
   \<and> newHead (39, 0) (1, 0) = (0, 0) \<and> newHead (39, 0) (0, -1) = (39, 29)
   \<and> tick audio_ok (game_state [(39, 0), (38, 0), (37, 0)] (1, 0) (Some (5, 5)) (sconst (Double 0 0)))
       = Some (Inr ((game_state [(0, 0), (39, 0), (38, 0)] (1, 0) (Some (5, 5)) (sconst (Double 0 0)))))
   \<and> hd (snake (game_state [(0, 0), (39, 0), (38, 0)] (1, 0) (Some (5, 5)) (sconst (Double 0 0)))) = (0, 0)"
proof -
  let ?s = "game_state [(39, 0), (38, 0), (37, 0)] (1, 0) (Some (5, 5)) (sconst (Double 0 0))"
  let ?s' = "game_state [(0, 0), (39, 0), (38, 0)] (1, 0) (Some (5, 5)) (sconst (Double 0 0))"
  have pre: "(0::int) \<le> 39" "39 < BOARD_WIDTH" "(0::int) \<le> 0" "0 < BOARD_HEIGHT"
    "(1, 0) \<in> snd ` set key_map"
    by (simp_all add: BOARD_WIDTH_def BOARD_HEIGHT_def key_map_def)
  have st: "running ?s" "snake ?s = (39, 0) # [(38, 0), (37, 0)]"
    "direction (apply_pending ?s) = (1, 0)"
    by (simp_all add: game_state_def apply_pending_def)
  have wrap: "((39 + fst (1::int, 0::int) + BOARD_WIDTH) mod BOARD_WIDTH,
               (0 + snd (1::int, 0::int) + BOARD_HEIGHT) mod BOARD_HEIGHT) = (0, 0)"
    by (simp add: BOARD_WIDTH_def BOARD_HEIGHT_def)
  have up: "(39, BOARD_HEIGHT - 1) = (39, 29)"
    by (simp add: BOARD_HEIGHT_def)
  have free: "(0, 0) \<notin> set (snake ?s)"
    by (simp add: game_state_def)
  from newHead_wraparound [OF pre, of ?s "[(38, 0), (37, 0)]" audio_ok ?s']
    pre st wrap up free border_tick_example
  show ?thesis by (simp add: BOARD_WIDTH_def)
qed

subsection \<open>The initial state of a game\<close>

text \<open>
  Claim C6. Whenever \<open>startGame\<close> returns, the snake is the three cells
  \<open>(WIDTH div 2, HEIGHT div 2)\<close>, one and two columns to its left, that is
  \<open>[(20, 15), (19, 15), (18, 15)]\<close> on the 40 by 30 board; the direction is \<open>(1, 0)\<close>, no
  direction is pending, the food lies on a cell that is not a cell of the snake, the
  score is 3, the length of the snake, and the game is running. And \<open>startGame\<close> does
  return as soon as some round of the food placement proposes a cell outside those three.
\<close>

theorem startGame_initial_state:
  "(startGame v s = Some s' \<longrightarrow>
      snake s' = [(BOARD_WIDTH div 2, BOARD_HEIGHT div 2), (BOARD_WIDTH div 2 - 1, BOARD_HEIGHT div 2),
                  (BOARD_WIDTH div 2 - 2, BOARD_HEIGHT div 2)]
      \<and> snake s' = [(20, 15), (19, 15), (18, 15)]
      \<and> direction s' = (1, 0) \<and> pendingDirection s' = None
      \<and> (\<exists>f. food s' = Some f \<and> f \<notin> set (snake s'))
      \<and> score s' = 3 \<and> score s' = int (length (snake s')) \<and> running s')
   \<and> (proposal k s \<notin> set [(20, 15), (19, 15), (18, 15)] \<longrightarrow> (\<exists>s'. startGame v s = Some s'))"
proof (intro conjI impI)
  let ?s4 = "s\<lparr>playerName := (if trim v = [] then Spieler else trim v),
            snake := [(20, 15), (19, 15), (18, 15)], direction := (1, 0),
            pendingDirection := None\<rparr>"
  {
    assume "startGame v s = Some s'"
    then obtain pos t where
      r: "randomEmptyPosition ?s4 = Some (pos, t)" and
      s': "s' = t\<lparr>food := Some pos, score := int (length (snake t)),
                  scoreboard := Some (playerName t, int (length (snake t))), running := True,
                  timers := insert (next_timer t) (timers t), next_timer := Suc (next_timer t),
                  intervalId := Some (next_timer t)\<rparr>"
      by (auto simp: startGame_unfold split: option.splits)
    from randomEmptyPosition_only_rnd[OF r] obtain rs where t: "t = ?s4\<lparr>rnd := rs\<rparr>" ..
    from randomEmptyPosition_Some(1)[OF r] have "pos \<notin> set (snake ?s4)" .
    then have free: "pos \<notin> set [(20, 15), (19, 15), (18, 15)]" by simp
    show "snake s' = [(BOARD_WIDTH div 2, BOARD_HEIGHT div 2), (BOARD_WIDTH div 2 - 1, BOARD_HEIGHT div 2),
                  (BOARD_WIDTH div 2 - 2, BOARD_HEIGHT div 2)]"
      by (simp add: s' t BOARD_WIDTH_def BOARD_HEIGHT_def)
    show "snake s' = [(20, 15), (19, 15), (18, 15)]" by (simp add: s' t)
    show "direction s' = (1, 0)" by (simp add: s' t)
    show "pendingDirection s' = None" by (simp add: s' t)
    show "\<exists>f. food s' = Some f \<and> f \<notin> set (snake s')"
      using free by (simp add: s' t)
    show "score s' = 3" by (simp add: s' t)
    show "score s' = int (length (snake s'))" by (simp add: s' t)
    show "running s'" by (simp add: s' t)
  }
  {
    assume "proposal k s \<notin> set [(20, 15), (19, 15), (18, 15)]"
    moreover have "proposal k ?s4 = proposal k s"
      by (rule proposal_cong) simp
    ultimately have "proposal k ?s4 \<notin> set (snake ?s4)" by simp
    from randomEmptyPosition_eventually[OF this]
    obtain y where "randomEmptyPosition ?s4 = Some y" by blast
    then show "\<exists>s'. startGame v s = Some s'"
      by (cases y) (simp add: startGame_unfold)
  }
qed

theorem startGame_initial_state_witness:
  "proposal 1 ((initial_state (Double 33 (- 6) ## Double 33 (- 6) ## sconst (Double 0 0)))
       \<lparr>startScreen_hidden := True, gameContainer_hidden := False\<rparr>)
     \<notin> set [(20, 15), (19, 15), (18, 15)]
   \<and> startGame [] ((initial_state (Double 33 (- 6) ## Double 33 (- 6) ## sconst (Double 0 0)))
       \<lparr>startScreen_hidden := True, gameContainer_hidden := False\<rparr>)
     = Some (game_state [(20, 15), (19, 15), (18, 15)] (1, 0) (Some (0, 0)) (sconst (Double 0 0)))
   \<and> snake (game_state [(20, 15), (19, 15), (18, 15)] (1, 0) (Some (0, 0)) (sconst (Double 0 0)))
       = [(20, 15), (19, 15), (18, 15)]
   \<and> direction (game_state [(20, 15), (19, 15), (18, 15)] (1, 0) (Some (0, 0)) (sconst (Double 0 0))) = (1, 0)
   \<and> pendingDirection (game_state [(20, 15), (19, 15), (18, 15)] (1, 0) (Some (0, 0)) (sconst (Double 0 0))) = None
   \<and> (\<exists>f. food (game_state [(20, 15), (19, 15), (18, 15)] (1, 0) (Some (0, 0)) (sconst (Double 0 0))) = Some f
           \<and> f \<notin> set (snake (game_state [(20, 15), (19, 15), (18, 15)] (1, 0) (Some (0, 0)) (sconst (Double 0 0)))))
   \<and> score (game_state [(20, 15), (19, 15), (18, 15)] (1, 0) (Some (0, 0)) (sconst (Double 0 0))) = 3"
proof -
  let ?s = "(initial_state (Double 33 (- 6) ## Double 33 (- 6) ## sconst (Double 0 0)))
       \<lparr>startScreen_hidden := True, gameContainer_hidden := False\<rparr>"
  let ?g = "game_state [(20, 15), (19, 15), (18, 15)] (1, 0) (Some (0, 0)) (sconst (Double 0 0))"
  have start: "startGame [] ?s = Some ?g"
    using click_after_loading by (simp only: startBtn_click_def)
  have p1: "proposal 1 ?s \<notin> set [(20, 15), (19, 15), (18, 15)]"
    by (simp add: proposal_cell initial_state_def Math_floor_def js_times_small val_def numeral_2_eq_2)
  from startGame_initial_state [of "[]" ?s ?g 1] start p1 show ?thesis
    by blast
qed

subsection \<open>The cell returned by the food placement\<close>

text \<open>
  Claim C7. Whenever \<open>randomEmptyPosition\<close> returns a cell \<open>(x, y)\<close>, the cell is not a
  cell of the snake, and the snake is the same before and after the call; when the
  numbers of \<open>Math.random\<close> obey its contract (doubles, at least 0, less than 1), the
  cell lies on the board: \<open>0 \<le> x < WIDTH\<close> and \<open>0 \<le> y < HEIGHT\<close>, the coordinates being
  the floors of the rounded double products.
\<close>

theorem randomEmptyPosition_free_cell:
  assumes "randomEmptyPosition s = Some ((x, y), s')"
  shows "(Math_random_contract (rnd s) \<longrightarrow>
            0 \<le> x \<and> x < BOARD_WIDTH \<and> 0 \<le> y \<and> y < BOARD_HEIGHT)
       \<and> (x, y) \<notin> set (snake s) \<and> snake s' = snake s"
proof -
  from randomEmptyPosition_Some(3)[OF assms] obtain k where xy: "proposal k s = (x, y)"
    by auto
  from proposal_in_range[of s k] xy
  have "Math_random_contract (rnd s) \<longrightarrow>
            0 \<le> x \<and> x < BOARD_WIDTH \<and> 0 \<le> y \<and> y < BOARD_HEIGHT"
    by auto
  with randomEmptyPosition_Some(1,2)[OF assms] show ?thesis
    by simp
qed

theorem randomEmptyPosition_free_cell_witness:
  "randomEmptyPosition (game_state [(20, 15), (19, 15), (18, 15)] (1, 0) None
       (Double 33 (- 6) ## Double 33 (- 6) ## dbl_0_7 ## dbl_0_7 ## sconst (Double 0 0)))
     = Some ((28, 21), game_state [(20, 15), (19, 15), (18, 15)] (1, 0) None (sconst (Double 0 0)))
   \<and> Math_random_contract
        (Double 33 (- 6) ## Double 33 (- 6) ## dbl_0_7 ## dbl_0_7 ## sconst (Double 0 0))
   \<and> \<lfloor>val dbl_0_7 * 40\<rfloor> = 27 \<and> \<lfloor>val dbl_0_7 * 30\<rfloor> = 20
   \<and> (0::int) \<le> 28 \<and> 28 < BOARD_WIDTH \<and> (0::int) \<le> 21 \<and> 21 < BOARD_HEIGHT
   \<and> (28, 21) \<notin> set (snake (game_state [(20, 15), (19, 15), (18, 15)] (1, 0) None
        (Double 33 (- 6) ## Double 33 (- 6) ## dbl_0_7 ## dbl_0_7 ## sconst (Double 0 0))))"
proof -
  have c: "Math_random_contract
      (rnd (game_state [(20, 15), (19, 15), (18, 15)] (1, 0) None
        (Double 33 (- 6) ## Double 33 (- 6) ## dbl_0_7 ## dbl_0_7 ## sconst (Double 0 0))))"
    "Math_random_contract
      (Double 33 (- 6) ## Double 33 (- 6) ## dbl_0_7 ## dbl_0_7 ## sconst (Double 0 0))"
    by (simp_all add: Math_random_contract_def game_state_def is_double_def val_def dbl_0_7_def)
  from randomEmptyPosition_free_cell [OF randomEmptyPosition_example [of None]] c
    randomEmptyPosition_example [of None] dbl_0_7_exact_products
  show ?thesis by blast
qed

subsection \<open>Audio failures\<close>



subsection \<open>Score and length of the snake\<close>

text \<open>
  Claim C9. In every reachable state in which the game is running, the score equals
  the length of the snake; and a tick that returns from such a state either raises both
  the score and the length by one or leaves both as they were. (\<open>startGame\<close> sets the
  score to the length of the snake it has just built: that is the \<open>click\<close> case of the
  reachable states.)
\<close>

theorem score_is_snake_length:
  assumes "reachable s" "running s"
  shows "score s = int (length (snake s))
       \<and> (tick a s = Some (Inr s') \<longrightarrow>
            (score s' = score s + 1 \<and> length (snake s') = length (snake s) + 1)
          \<or> (score s' = score s \<and> length (snake s') = length (snake s)))"
  using reachable_score[OF assms(1)] tick_score_length[of a s s'] by blast

theorem score_is_snake_length_witness:
  "reachable (game_state [(20, 15), (19, 15), (18, 15)] (1, 0) (Some (0, 0)) (sconst (Double 0 0)))
   \<and> running (game_state [(20, 15), (19, 15), (18, 15)] (1, 0) (Some (0, 0)) (sconst (Double 0 0)))
   \<and> score (game_state [(20, 15), (19, 15), (18, 15)] (1, 0) (Some (0, 0)) (sconst (Double 0 0)))
       = int (length (snake (game_state [(20, 15), (19, 15), (18, 15)] (1, 0) (Some (0, 0)) (sconst (Double 0 0)))))
   \<and> tick audio_ok (game_state [(20, 15), (19, 15), (18, 15)] (1, 0) (Some (0, 0)) (sconst (Double 0 0)))
       = Some (Inr ((game_state [(21, 15), (20, 15), (19, 15)] (1, 0) (Some (0, 0)) (sconst (Double 0 0)))))
   \<and> score (game_state [(21, 15), (20, 15), (19, 15)] (1, 0) (Some (0, 0)) (sconst (Double 0 0)))
       = score (game_state [(20, 15), (19, 15), (18, 15)] (1, 0) (Some (0, 0)) (sconst (Double 0 0)))"
proof -
  let ?s = "game_state [(20, 15), (19, 15), (18, 15)] (1, 0) (Some (0, 0)) (sconst (Double 0 0))"
  let ?s' = "game_state [(21, 15), (20, 15), (19, 15)] (1, 0) (Some (0, 0)) (sconst (Double 0 0))"
  have r: "reachable ?s"
    by (rule reachable.click[OF reachable.loaded click_after_loading])
  have run: "running ?s" by (simp add: game_state_def)
  have neq: "score ?s' \<noteq> score ?s + 1" by (simp add: game_state_def)
  from score_is_snake_length [OF r run, of audio_ok ?s'] plain_tick_example r run neq
  show ?thesis by blast
qed

subsection \<open>Ticks of a game that is not running\<close>

text \<open>
  Claim C10. When \<open>running\<close> is false, \<open>tick\<close> returns at its first line: the call
  returns normally and every variable of the game and of the browser is as before, among
  them the snake, the food, the score, both directions and \<open>running\<close> itself.
\<close>

theorem tick_not_running_unchanged:
  "\<not> running s \<Longrightarrow> tick a s = Some (Inr s)"
  by (simp add: tick_def)

theorem tick_not_running_unchanged_witness:
  "\<not> running (endGame (game_state [(20, 15), (19, 15), (18, 15)] (1, 0) (Some (3, 4)) (sconst (Double 0 0))))
   \<and> tick audio_ok (endGame (game_state [(20, 15), (19, 15), (18, 15)] (1, 0) (Some (3, 4)) (sconst (Double 0 0))))
       = Some (Inr (endGame (game_state [(20, 15), (19, 15), (18, 15)] (1, 0) (Some (3, 4)) (sconst (Double 0 0)))))"
  using tick_not_running_unchanged
    [of "endGame (game_state [(20, 15), (19, 15), (18, 15)] (1, 0) (Some (3, 4)) (sconst (Double 0 0)))" audio_ok]
  by (simp add: endGame_def game_state_def clearInterval_def)

end
